theory Spec2Isabelle
  imports Main "HOL-Library.Sublist"
begin

section \<open>JavaScript values and plain objects used as dictionaries\<close>

text \<open>
  \<^verbatim>\<open>IDLNameMap\<close> keeps its counters in two plain objects
  (\<^verbatim>\<open>this.operationNames = {}\<close>, \<^verbatim>\<open>this.idlPartials = {}\<close>).
  A plain object inherits from \<^verbatim>\<open>Object.prototype\<close>, so a property read
  finds the object's own property first and an inherited member otherwise.
  The values that reach these objects are numbers, the strings that
  \<^verbatim>\<open>+= 1\<close> produces from a non-number, and the inherited members themselves.
\<close>

datatype error = TypeError

datatype jsval =
    Undefined
  | NaN
  | Num nat
  | Str string
  | Builtin string  \<comment> \<open>the member of \<^verbatim>\<open>Object.prototype\<close> with that name\<close>

type_synonym jsobject = "string \<Rightarrow> jsval option"

definition objectPrototypeKeys :: "string list" where
  "objectPrototypeKeys =
     [''constructor'', ''__defineGetter__'', ''__defineSetter__'', ''hasOwnProperty'',
      ''__lookupGetter__'', ''__lookupSetter__'', ''isPrototypeOf'',
      ''propertyIsEnumerable'', ''toString'', ''valueOf'', ''__proto__'',
      ''toLocaleString'']"

text \<open>\<^verbatim>\<open>obj[key]\<close>: own property, else inherited, else \<^verbatim>\<open>undefined\<close>.
  \<^verbatim>\<open>__proto__\<close> is an accessor of the prototype and never an own property.\<close>

definition obj_get :: "jsobject \<Rightarrow> string \<Rightarrow> jsval" where
  "obj_get obj key =
     (if key = ''__proto__'' then Builtin key
      else case obj key of
             Some v \<Rightarrow> v
           | None \<Rightarrow> if key \<in> set objectPrototypeKeys then Builtin key else Undefined)"

text \<open>\<^verbatim>\<open>obj[key] = v\<close> for a primitive \<^verbatim>\<open>v\<close>: creates or overwrites the own
  property; the \<^verbatim>\<open>__proto__\<close> setter ignores a primitive.\<close>

definition obj_set :: "jsobject \<Rightarrow> string \<Rightarrow> jsval \<Rightarrow> jsobject" where
  "obj_set obj key v = (if key = ''__proto__'' then obj else obj(key \<mapsto> v))"

fun truthy :: "jsval \<Rightarrow> bool" where
  "truthy Undefined = False"
| "truthy NaN = False"
| "truthy (Num n) = (n \<noteq> 0)"
| "truthy (Str s) = (s \<noteq> [])"
| "truthy (Builtin k) = True"

definition digitChar :: "nat \<Rightarrow> char" where
  "digitChar d = ''0123456789'' ! d"

text \<open>Decimal rendering of a non-negative integer, as \<^verbatim>\<open>String(n)\<close> gives it
  (for the integers a counter reaches, far below \<^verbatim>\<open>2^53\<close>).\<close>

function decimal :: "nat \<Rightarrow> string" where
  "decimal n = (if n < 10 then [digitChar n] else decimal (n div 10) @ [digitChar (n mod 10)])"
  by pat_completeness auto
termination
  by (relation "measure id") auto

text \<open>String conversion (template literals, \<^verbatim>\<open>+\<close> with a string). A built-in
  function prints as V8 prints native code; \<^verbatim>\<open>Object.prototype.constructor\<close> is
  the function \<^verbatim>\<open>Object\<close>, and \<^verbatim>\<open>__proto__\<close> reads as the prototype object.\<close>

fun toJsString :: "jsval \<Rightarrow> string" where
  "toJsString Undefined = ''undefined''"
| "toJsString NaN = ''NaN''"
| "toJsString (Num n) = decimal n"
| "toJsString (Str s) = s"
| "toJsString (Builtin k) =
     (if k = ''__proto__'' then ''[object Object]''
      else ''function '' @ (if k = ''constructor'' then ''Object'' else k) @ ''() { [native code] }'')"

text \<open>\<^verbatim>\<open>v + 1\<close>, the right-hand side of \<^verbatim>\<open>obj[key] += 1\<close>.\<close>

fun plusOne :: "jsval \<Rightarrow> jsval" where
  "plusOne Undefined = NaN"
| "plusOne NaN = NaN"
| "plusOne (Num n) = Num (n + 1)"
| "plusOne (Str s) = Str (s @ ''1'')"
| "plusOne (Builtin k) = Str (toJsString (Builtin k) @ ''1'')"

text \<open>A character of the model is a UTF-16 code unit below 256: a character of Basic
  Latin or of the Latin-1 Supplement (WebIDL identifiers are Basic Latin; an enum value
  may hold more, and a character from U+0100 on is outside the type). On these
  characters \<^verbatim>\<open>String.prototype.toLowerCase\<close> maps \<^verbatim>\<open>A\<close> to \<^verbatim>\<open>Z\<close> and the letters U+00C0 to
  U+00DE, the multiplication sign U+00D7 apart, to the letter 32 places up, and keeps
  every other character.\<close>

definition isUpperCase :: "nat \<Rightarrow> bool" where
  "isUpperCase n = (65 \<le> n \<and> n \<le> 90 \<or> 192 \<le> n \<and> n \<le> 222 \<and> n \<noteq> 215)"

definition lowerChar :: "char \<Rightarrow> char" where
  "lowerChar c = (if isUpperCase (of_char c) then char_of (of_char c + 32 :: nat) else c)"

definition toLowerCase :: "string \<Rightarrow> string" where
  "toLowerCase s = map lowerChar s"

section \<open>core/webidl: definition nodes and the name map\<close>

text \<open>The fields of a webidl2 syntax-tree node that the module reads. A field the
  node does not have is \<open>None\<close> (\<^verbatim>\<open>undefined\<close>). \<open>defn_ident\<close> is the identity of
  the node object, the key of the \<^verbatim>\<open>WeakMap\<close>.\<close>

record argument =
  arg_name :: string

record defn =
  defn_ident :: nat
  defn_type :: string
  defn_name :: "string option"
  defn_value :: "string option"
  defn_partial :: bool
  defn_arguments :: "argument list"
  defn_extAttrs :: "string list"

record nameAndId =
  name :: string
  idlId :: string

record IDLNameMap =
  entries :: "nat \<Rightarrow> nameAndId option"
  operationNames :: jsobject
  idlPartials :: jsobject

definition newIDLNameMap :: IDLNameMap where
  "newIDLNameMap = \<lparr>entries = Map.empty, operationNames = Map.empty, idlPartials = Map.empty\<rparr>"

definition getDefnName :: "defn \<Rightarrow> string option" where
  "getDefnName d =
     (if defn_type d = ''enum-value'' then defn_value d
      else if defn_type d = ''operation'' then defn_name d
      else (case defn_name d of
              None \<Rightarrow> Some (defn_type d)
            | Some n \<Rightarrow> Some (if n = [] then defn_type d else n)))"

definition getIdlId :: "string \<Rightarrow> string \<Rightarrow> string" where
  "getIdlId nm parentName =
     (if parentName = [] then ''idl-def-'' @ toLowerCase nm
      else ''idl-def-'' @ toLowerCase parentName @ ''-'' @ toLowerCase nm)"

text \<open>\<^verbatim>\<open>this.idlPartials[defn.name]\<close>: a missing name is the key \<^verbatim>\<open>"undefined"\<close>.\<close>

definition propertyKey :: "string option \<Rightarrow> string" where
  "propertyKey k = (case k of None \<Rightarrow> ''undefined'' | Some s \<Rightarrow> s)"

definition resolvePartial :: "defn \<Rightarrow> IDLNameMap \<Rightarrow> string \<times> IDLNameMap" where
  "resolvePartial d m =
     (if \<not> defn_partial d then ([], m)
      else
        let key = propertyKey (defn_name d);
            p1 = (if \<not> truthy (obj_get (idlPartials m) key)
                  then obj_set (idlPartials m) key (Num 0) else idlPartials m);
            p2 = obj_set p1 key (plusOne (obj_get p1 key))
        in (''-partial-'' @ toJsString (obj_get p2 key), m\<lparr>idlPartials := p2\<rparr>))"

definition resolveOverload :: "string \<Rightarrow> string \<Rightarrow> IDLNameMap \<Rightarrow> string \<times> IDLNameMap" where
  "resolveOverload nm parentName m =
     (let qualifiedName = parentName @ ''.'' @ nm;
          fullyQualifiedName = qualifiedName @ ''()'';
          o1 = (if \<not> truthy (obj_get (operationNames m) fullyQualifiedName)
                then obj_set (operationNames m) fullyQualifiedName (Num 0)
                else operationNames m);
          overload = (if \<not> truthy (obj_get o1 qualifiedName) then None
                      else Some (''!overload-'' @ toJsString (obj_get o1 qualifiedName)));
          o2 = (if \<not> truthy (obj_get o1 qualifiedName)
                then obj_set o1 qualifiedName (Num 0) else o1);
          o3 = obj_set o2 fullyQualifiedName (plusOne (obj_get o2 fullyQualifiedName));
          o4 = obj_set o3 qualifiedName (plusOne (obj_get o3 qualifiedName))
      in (case overload of None \<Rightarrow> [] | Some s \<Rightarrow> s, m\<lparr>operationNames := o4\<rparr>))"

definition isContainerType :: "string \<Rightarrow> bool" where
  "isContainerType t =
     (t = ''callback interface'' \<or> t = ''dictionary'' \<or> t = ''interface'' \<or> t = ''interface mixin'')"

definition isCallType :: "string \<Rightarrow> bool" where
  "isCallType t = (t = ''constructor'' \<or> t = ''operation'')"

definition argumentSegments :: "argument list \<Rightarrow> string" where
  "argumentSegments args = concat (map (\<lambda>arg. ''-'' @ toLowerCase (arg_name arg)) args)"

text \<open>\<^verbatim>\<open>getIdlId\<close> calls \<^verbatim>\<open>name.toLowerCase()\<close>, which throws on a missing name,
  before any counter is touched.\<close>

definition resolveNameAndId :: "defn \<Rightarrow> string \<Rightarrow> IDLNameMap \<Rightarrow> (error + nameAndId) \<times> IDLNameMap" where
  "resolveNameAndId d parent m =
     (case getDefnName d of
        None \<Rightarrow> (Inl TypeError, m)
      | Some nm \<Rightarrow>
          let base = getIdlId nm parent in
          if isContainerType (defn_type d) then
            (let (suffix, m') = resolvePartial d m
             in (Inr \<lparr>name = nm, idlId = base @ suffix\<rparr>, m'))
          else if isCallType (defn_type d) then
            (let (overload, m') = resolveOverload nm parent m
             in if overload \<noteq> [] then
                  (Inr \<lparr>name = nm @ overload, idlId = base @ overload\<rparr>, m')
                else if defn_arguments d \<noteq> [] then
                  (Inr \<lparr>name = nm, idlId = base @ argumentSegments (defn_arguments d)\<rparr>, m')
                else (Inr \<lparr>name = nm, idlId = base\<rparr>, m'))
          else (Inr \<lparr>name = nm, idlId = base\<rparr>, m))"

definition getNameAndId :: "defn \<Rightarrow> string \<Rightarrow> IDLNameMap \<Rightarrow> (error + nameAndId) \<times> IDLNameMap" where
  "getNameAndId d parent m =
     (case entries m (defn_ident d) of
        Some r \<Rightarrow> (Inr r, m)
      | None \<Rightarrow>
          (case resolveNameAndId d parent m of
             (Inl e, m') \<Rightarrow> (Inl e, m')
           | (Inr r, m') \<Rightarrow> (Inr r, m'\<lparr>entries := (entries m')(defn_ident d \<mapsto> r)\<rparr>)))"

text \<open>A run: the calls of \<^verbatim>\<open>getNameAndId\<close> that the markup templates (or any other client
  of the exported class) make on one \<^verbatim>\<open>IDLNameMap\<close>, in order, each with its outcome. A
  call that throws has not touched the map, so the calls after it start from the same
  map.\<close>

fun getAll :: "(defn \<times> string) list \<Rightarrow> IDLNameMap \<Rightarrow> (error + nameAndId) list \<times> IDLNameMap" where
  "getAll [] m = ([], m)"
| "getAll ((d, parent) # rest) m =
     (let (r, m') = getNameAndId d parent m;
          (rs, m'') = getAll rest m'
      in (r # rs, m''))"

section \<open>core/webidl: linking a name to its definition\<close>

text \<open>The collaborators of \<^verbatim>\<open>defineIdlName\<close> live outside the module. The registry's
  \<^verbatim>\<open>findDfn\<close> is a parameter; the calls that change a collaborator's state are
  recorded, in order, as effects; the node built by the template is a value.\<close>

record dfnElement =
  dfn_id :: string

datatype effect =
    SetDataset string string string
      \<comment> \<open>\<^verbatim>\<open>dfn.dataset[key] = value\<close> on the existing definition with that id\<close>
  | DecorateDfn "string option" string
  | AddAlternativeNamesByType string "string option" string
  | RegisterDefinition "string list"
  | ShowInlineWarning string

datatype rendered =
    InternalLink "string option" string string string
      \<comment> \<open>\<^verbatim>\<open>data-link-for\<close>, \<^verbatim>\<open>data-link-type\<close>, \<^verbatim>\<open>href\<close>, text\<close>
  | DefaultToJSONLink string
  | NewDfn string string
      \<comment> \<open>\<^verbatim>\<open>data-dfn-type\<close>, text\<close>
  | UnlinkedAnchor "string option" string "string option" string
      \<comment> \<open>\<^verbatim>\<open>data-idl\<close>, link type, \<^verbatim>\<open>data-title\<close>, text\<close>

definition getDfnType :: "string \<Rightarrow> string" where
  "getDfnType idlType =
     (if idlType = ''operation'' then ''method''
      else if idlType = ''field'' then ''dict-member''
      else if idlType = ''callback interface'' \<or> idlType = ''interface mixin'' then ''interface''
      else idlType)"

definition backtick :: string where
  "backtick = [CHR 0x60]"

definition missingDfnMessage :: "string \<Rightarrow> string \<Rightarrow> string \<Rightarrow> string" where
  "missingDfnMessage nm parentName idlType =
     (let styledName = (if idlType = ''operation'' then nm @ ''()'' else nm);
          ofParent = (if parentName \<noteq> [] then '' '' @ backtick @ parentName @ backtick @ [CHR 0x27, CHR ''s'']
                      else [])
      in ''Missing '' @ backtick @ ''<dfn>'' @ backtick @ '' for'' @ ofParent @ '' '' @ backtick
         @ styledName @ backtick @ '' '' @ idlType
         @ ''. [More info](https://github.com/w3c/respec/wiki/WebIDL-thing-is-not-defined).'')"

text \<open>\<^verbatim>\<open>parent ? parent.name : ""\<close>; a parameter with a default reads a missing
  argument as the default, so \<^verbatim>\<open>getNameAndId\<close> sees \<^verbatim>\<open>""\<close> for a parent without a name.\<close>

definition parentNameOf :: "defn option \<Rightarrow> string option" where
  "parentNameOf parent = (case parent of None \<Rightarrow> Some [] | Some p \<Rightarrow> defn_name p)"

definition orEmpty :: "string option \<Rightarrow> string" where
  "orEmpty s = (case s of None \<Rightarrow> [] | Some t \<Rightarrow> t)"

definition isDefaultJSON :: "defn \<Rightarrow> bool" where
  "isDefaultJSON data =
     (defn_type data = ''operation'' \<and> defn_name data = Some ''toJSON''
      \<and> ''Default'' \<in> set (defn_extAttrs data))"

definition defineIdlName ::
  "string \<Rightarrow> defn \<Rightarrow> defn option \<Rightarrow> (defn \<Rightarrow> string \<Rightarrow> string option \<Rightarrow> dfnElement option)
   \<Rightarrow> IDLNameMap \<Rightarrow> (error + rendered \<times> effect list) \<times> IDLNameMap" where
  "defineIdlName escaped data parent findDfn m =
     (let parentName = parentNameOf parent in
      case getNameAndId data (orEmpty parentName) m of
        (Inl e, m') \<Rightarrow> (Inl e, m')
      | (Inr r, m') \<Rightarrow>
          let nm = name r;
              dfn = findDfn data nm parentName;
              linkType = getDfnType (defn_type data)
          in (case dfn of
                Some el \<Rightarrow>
                  (Inr (InternalLink parentName linkType (''#'' @ dfn_id el) escaped,
                        (if \<not> defn_partial data
                         then [SetDataset (dfn_id el) ''export'' [],
                               SetDataset (dfn_id el) ''dfnType'' linkType]
                         else [])
                        @ [DecorateDfn parentName nm,
                           AddAlternativeNamesByType (defn_type data) parentName nm]),
                   m')
              | None \<Rightarrow>
                  if isDefaultJSON data then (Inr (DefaultToJSONLink escaped, []), m')
                  else if \<not> defn_partial data then
                    (Inr (NewDfn linkType escaped,
                          [RegisterDefinition [nm], DecorateDfn parentName nm,
                           AddAlternativeNamesByType (defn_type data) parentName nm]),
                     m')
                  else
                    let unlinkedAnchor =
                          UnlinkedAnchor (if defn_partial data then Some ''partial'' else None)
                            linkType (defn_name data) escaped;
                        showWarnings =
                          (nm \<noteq> [] \<and> defn_type data \<noteq> ''typedef''
                           \<and> \<not> (defn_partial data \<and> dfn = None))
                    in (Inr (unlinkedAnchor,
                             if showWarnings
                             then [ShowInlineWarning
                                     (missingDfnMessage nm (orEmpty parentName) (defn_type data))]
                             else []),
                        m')))"

fun isUnlinkedAnchor :: "rendered \<Rightarrow> bool" where
  "isUnlinkedAnchor (UnlinkedAnchor idl linkType title escaped) = True"
| "isUnlinkedAnchor node = False"

definition warnings :: "effect list \<Rightarrow> string list" where
  "warnings es = concat (map (\<lambda>e. case e of ShowInlineWarning msg \<Rightarrow> [msg] | _ \<Rightarrow> []) es)"

definition registrations :: "effect list \<Rightarrow> string list list" where
  "registrations es = concat (map (\<lambda>e. case e of RegisterDefinition ns \<Rightarrow> [ns] | _ \<Rightarrow> []) es)"

section \<open>core/xref: resolving terms against the lookup response\<close>

record element =
  classList :: "string list"
  dataset :: "string \<Rightarrow> string option"
  closestInformative :: bool  \<comment> \<open>whether \<^verbatim>\<open>elem.closest(".informative")\<close> finds an element\<close>

record xrefEntry =
  elem :: nat  \<comment> \<open>the element, by its place in the document\<close>
  specs :: "string list"
  types :: "string list"

record candidate =
  uri :: string
  spec :: string
  ctype :: string
  normative :: bool

datatype warning =
    NoDataFor nat
  | AmbiguityInDataFor nat
  | InformativeInNormative xrefEntry

record xrefState =
  elements :: "nat \<Rightarrow> element"
  console :: "warning list"
  xrefs :: "string \<Rightarrow> xrefEntry list option"
  normativeReferences :: "string set"
  informativeReferences :: "string set"

definition classListAdd :: "nat \<Rightarrow> string \<Rightarrow> xrefState \<Rightarrow> xrefState" where
  "classListAdd e c st =
     (let el = elements st e in
      if c \<in> set (classList el) then st
      else st\<lparr>elements := (elements st)(e := el\<lparr>classList := classList el @ [c]\<rparr>)\<rparr>)"

definition consoleWarn :: "warning \<Rightarrow> xrefState \<Rightarrow> xrefState" where
  "consoleWarn w st = st\<lparr>console := console st @ [w]\<rparr>"

text \<open>\<^verbatim>\<open>s.split(sep)\<close> for a one-character separator: every piece, empty ones included.\<close>

fun splitOn :: "char \<Rightarrow> string \<Rightarrow> string list" where
  "splitOn sep [] = [[]]"
| "splitOn sep (c # cs) =
     (if c = sep then [] # splitOn sep cs
      else (case splitOn sep cs of [] \<Rightarrow> [[c]] | p # ps \<Rightarrow> (c # p) # ps))"

text \<open>\<^verbatim>\<open>s.split(sep, limit)\<close> keeps at most \<^verbatim>\<open>limit\<close> pieces.\<close>

definition splitLimit :: "char \<Rightarrow> nat \<Rightarrow> string \<Rightarrow> string list" where
  "splitLimit sep limit s = take limit (splitOn sep s)"

text \<open>\<^verbatim>\<open>xs[i]\<close>: \<^verbatim>\<open>undefined\<close> past the end.\<close>

definition at :: "'a list \<Rightarrow> nat \<Rightarrow> 'a option" where
  "at xs i = (if i < length xs then Some (xs ! i) else None)"

definition disambiguate ::
  "candidate list option \<Rightarrow> xrefEntry \<Rightarrow> xrefState \<Rightarrow> candidate option \<times> xrefState" where
  "disambiguate data context st =
     (case data of
        None \<Rightarrow> (None, st)
      | Some cs \<Rightarrow>
          if cs = [] then (None, st)
          else if length cs = 1 then
            (if specs context \<noteq> [] \<and> spec (hd cs) \<notin> set (specs context) then
               (None, consoleWarn (NoDataFor (elem context))
                        (classListAdd (elem context) ''respec-offending-element'' st))
             else (Some (hd cs), st))
          else
            (None, classListAdd (elem context) ''respec-offending-element''
                     (consoleWarn (AmbiguityInDataFor (elem context)) st)))"

text \<open>\<^verbatim>\<open>Object.assign(elem.dataset, {cite, citePath, citeFrag})\<close>: a dataset stores
  strings, so a missing fragment is stored as the text \<^verbatim>\<open>undefined\<close>.\<close>

definition assignCite :: "nat \<Rightarrow> string \<Rightarrow> string option \<Rightarrow> string option \<Rightarrow> xrefState \<Rightarrow> xrefState" where
  "assignCite e cite citePath citeFrag st =
     (let el = elements st e;
          ds = (dataset el)(''cite'' \<mapsto> cite, ''citePath'' \<mapsto> propertyKey citePath,
                            ''citeFrag'' \<mapsto> propertyKey citeFrag)
      in st\<lparr>elements := (elements st)(e := el\<lparr>dataset := ds\<rparr>)\<rparr>)"

text \<open>The callback of \<^verbatim>\<open>forEach\<close> in \<^verbatim>\<open>addDataCiteToTerms\<close>. \<^verbatim>\<open>path.split\<close> throws when
  \<^verbatim>\<open>path\<close> is \<^verbatim>\<open>undefined\<close>; what was changed before the throw stays changed.\<close>

definition citeEntry :: "candidate list option \<Rightarrow> xrefEntry \<Rightarrow> xrefState \<Rightarrow> error option \<times> xrefState" where
  "citeEntry data entry st =
     (case disambiguate data entry st of
        (None, st1) \<Rightarrow> (None, st1)
      | (Some result, st1) \<Rightarrow>
          let cite = spec result;
              st2 = (if normative result then
                       st1\<lparr>normativeReferences := insert cite (normativeReferences st1)\<rparr>
                     else if closestInformative (elements st1 (elem entry)) then
                       st1\<lparr>informativeReferences := insert cite (informativeReferences st1)\<rparr>
                     else consoleWarn (InformativeInNormative entry) st1);
              path = (if CHR ''/'' \<in> set (uri result)
                      then at (splitLimit CHR ''/'' 1 (uri result)) 1
                      else Some (uri result))
          in (case path of
                None \<Rightarrow> (Some TypeError, st2)
              | Some p \<Rightarrow>
                  let parts = splitOn CHR ''#'' p
                  in (None, assignCite (elem entry) cite (at parts 0) (at parts 1) st2)))"

fun forEachEntry :: "candidate list option \<Rightarrow> xrefEntry list \<Rightarrow> xrefState \<Rightarrow> error option \<times> xrefState" where
  "forEachEntry data [] st = (None, st)"
| "forEachEntry data (entry # rest) st =
     (case citeEntry data entry st of
        (Some e, st') \<Rightarrow> (Some e, st')
      | (None, st') \<Rightarrow> forEachEntry data rest st')"

text \<open>\<^verbatim>\<open>for (const term in results)\<close> over the keys of the response (the list of its
  properties, each term once), in their order of enumeration; \<^verbatim>\<open>conf.xrefs.get(term).forEach\<close> throws for a term the map lacks.\<close>

fun forInTerms :: "(string \<times> candidate list) list \<Rightarrow> string list \<Rightarrow> xrefState \<Rightarrow> error option \<times> xrefState" where
  "forInTerms results [] st = (None, st)"
| "forInTerms results (term # rest) st =
     (case xrefs st term of
        None \<Rightarrow> (Some TypeError, st)
      | Some refs \<Rightarrow>
          (case forEachEntry (map_of results term) refs st of
             (Some e, st') \<Rightarrow> (Some e, st')
           | (None, st') \<Rightarrow> forInTerms results rest st'))"

definition addDataCiteToTerms :: "(string \<times> candidate list) list \<Rightarrow> xrefState \<Rightarrow> error option \<times> xrefState" where
  "addDataCiteToTerms results st = forInTerms results (map fst results) st"

section \<open>Counting the resolutions of a run\<close>

text \<open>The notions of this section are not part of the program: they say, for the
  theorems below, what a counter object holds and how often a run has counted a key.\<close>

text \<open>The number a counter object holds for a key (0 while the key is absent).\<close>

definition counterOf :: "jsobject \<Rightarrow> string \<Rightarrow> nat" where
  "counterOf obj key = (case obj key of Some (Num n) \<Rightarrow> n | _ \<Rightarrow> 0)"

definition numericObject :: "jsobject \<Rightarrow> bool" where
  "numericObject obj = (\<forall>key v. obj key = Some v \<longrightarrow> (\<exists>n. v = Num n))"

text \<open>The fully-qualified name \<^verbatim>\<open>parent.name\<close> under which \<^verbatim>\<open>resolveOverload\<close> counts a
  request; none for a node that does not reach \<^verbatim>\<open>resolveOverload\<close>.\<close>

definition qualifiedNameOf :: "defn \<times> string \<Rightarrow> string option" where
  "qualifiedNameOf req =
     (if isCallType (defn_type (fst req))
      then map_option (\<lambda>n. snd req @ ''.'' @ n) (getDefnName (fst req))
      else None)"

text \<open>How often resolving a request adds one to the counter of a key: once for its
  qualified name, once for its call form \<^verbatim>\<open>parent.name()\<close>.\<close>

definition bumps :: "string \<Rightarrow> defn \<times> string \<Rightarrow> nat" where
  "bumps key req =
     (if qualifiedNameOf req = Some key then 1 else 0)
     + (if map_option (\<lambda>q. q @ ''()'') (qualifiedNameOf req) = Some key then 1 else 0)"

text \<open>What \<^verbatim>\<open>resolveNameAndId\<close> returns for an operation or constructor when the
  counter of its qualified name stands at \<open>k\<close>.\<close>

definition callResult :: "defn \<Rightarrow> string \<Rightarrow> string \<Rightarrow> nat \<Rightarrow> nameAndId" where
  "callResult d n parent k =
     (if k = 0 then \<lparr>name = n, idlId = getIdlId n parent @ argumentSegments (defn_arguments d)\<rparr>
      else \<lparr>name = n @ ''!overload-'' @ decimal k,
             idlId = getIdlId n parent @ ''!overload-'' @ decimal k\<rparr>)"



text \<open>The requests of a run that \<^verbatim>\<open>resolveNameAndId\<close> answered: the node had no entry
  in the \<^verbatim>\<open>WeakMap\<close> yet and the call returned. Every other request is answered from
  the \<^verbatim>\<open>WeakMap\<close>, or throws.\<close>

fun resolved :: "(defn \<times> string) list \<Rightarrow> IDLNameMap \<Rightarrow> (defn \<times> string) list" where
  "resolved [] m = []"
| "resolved ((d, parent) # rest) m =
     (if entries m (defn_ident d) = None \<and> \<not> isl (fst (getNameAndId d parent m))
      then [(d, parent)] else [])
     @ resolved rest (snd (getNameAndId d parent m))"

definition identsOf :: "(defn \<times> string) list \<Rightarrow> nat set" where
  "identsOf reqs = (\<lambda>r. defn_ident (fst r)) ` set reqs"



section \<open>Concrete inputs\<close>

definition plainElement :: element where
  "plainElement = \<lparr>classList = [], dataset = Map.empty, closestInformative = False\<rparr>"

definition emptyXrefState :: xrefState where
  "emptyXrefState = \<lparr>elements = (\<lambda>e. plainElement), console = [], xrefs = Map.empty,
     normativeReferences = {}, informativeReferences = {}\<rparr>"

definition widgetInDom :: candidate where
  "widgetInDom = \<lparr>uri = ''dom#widget'', spec = ''dom'', ctype = ''dfn'', normative = True\<rparr>"

definition widgetInHtml :: candidate where
  "widgetInHtml = \<lparr>uri = ''html#widget'', spec = ''html'', ctype = ''dfn'', normative = True\<rparr>"

definition interfaceBaz :: defn where
  "interfaceBaz = \<lparr>defn_ident = 0, defn_type = ''interface'', defn_name = Some ''Baz'',
     defn_value = None, defn_partial = False, defn_arguments = [], defn_extAttrs = []\<rparr>"

definition partialBaz :: defn where
  "partialBaz = interfaceBaz\<lparr>defn_partial := True\<rparr>"

definition noDefinitions :: "defn \<Rightarrow> string \<Rightarrow> string option \<Rightarrow> dfnElement option" where
  "noDefinitions data nm parentName = None"

definition widgetWithPath :: candidate where
  "widgetWithPath = \<lparr>uri = ''dom/#widget'', spec = ''dom'', ctype = ''dfn'', normative = True\<rparr>"

definition gadgetInHtml :: candidate where
  "gadgetInHtml = \<lparr>uri = ''html#gadget'', spec = ''html'', ctype = ''dfn'', normative = True\<rparr>"

definition twoTermsResponse :: "(string \<times> candidate list) list" where
  "twoTermsResponse = [(''widget'', [widgetWithPath]), (''gadget'', [gadgetInHtml])]"

definition twoTermsState :: xrefState where
  "twoTermsState =
     emptyXrefState\<lparr>xrefs := [''widget'' \<mapsto> [\<lparr>elem = 0, specs = [], types = []\<rparr>],
                                ''gadget'' \<mapsto> [\<lparr>elem = 1, specs = [], types = []\<rparr>]]\<rparr>"

definition operationFoo :: "nat \<Rightarrow> defn" where
  "operationFoo i = \<lparr>defn_ident = i, defn_type = ''operation'', defn_name = Some ''foo'',
     defn_value = None, defn_partial = False, defn_arguments = [], defn_extAttrs = []\<rparr>"

definition operationBarX :: defn where
  "operationBarX = \<lparr>defn_ident = 2, defn_type = ''operation'', defn_name = Some ''bar'',
     defn_value = None, defn_partial = False, defn_arguments = [\<lparr>arg_name = ''x''\<rparr>],
     defn_extAttrs = []\<rparr>"

definition operationBar :: "nat \<Rightarrow> defn" where
  "operationBar i = \<lparr>defn_ident = i, defn_type = ''operation'', defn_name = Some ''bar'',
     defn_value = None, defn_partial = False, defn_arguments = [], defn_extAttrs = []\<rparr>"

definition interfaceNamed :: "nat \<Rightarrow> string \<Rightarrow> defn" where
  "interfaceNamed i n = \<lparr>defn_ident = i, defn_type = ''interface'', defn_name = Some n,
     defn_value = None, defn_partial = False, defn_arguments = [], defn_extAttrs = []\<rparr>"

definition partialDictionary :: "nat \<Rightarrow> string \<Rightarrow> defn" where
  "partialDictionary i n = \<lparr>defn_ident = i, defn_type = ''dictionary'', defn_name = Some n,
     defn_value = None, defn_partial = True, defn_arguments = [], defn_extAttrs = []\<rparr>"

definition partialInterface :: "nat \<Rightarrow> string \<Rightarrow> defn" where
  "partialInterface i n = (interfaceNamed i n)\<lparr>defn_partial := True\<rparr>"

text \<open>A run as the module makes it: every node is requested twice, once for its name
  (\<^verbatim>\<open>defineIdlName\<close>) and once for its definition (the \<^verbatim>\<open>definition\<close> template).\<close>

definition fooRun :: "(defn \<times> string) list" where
  "fooRun = [(operationFoo 1, ''A''), (operationFoo 1, ''A''),
             (operationFoo 2, ''A''), (operationFoo 2, ''A''),
             (operationFoo 3, ''A''), (operationFoo 3, ''A'')]"


declare decimal.simps [simp del]

lemmas lowerChar_eval = lowerChar_def isUpperCase_def char_of_def bit_0

section \<open>Term disambiguation\<close>

lemma classListAdd_dataset: "dataset (elements (classListAdd e c st) e') = dataset (elements st e')"
  by (simp add: classListAdd_def Let_def)

lemma classListAdd_member: "c \<in> set (classList (elements (classListAdd e c st) e))"
  by (simp add: classListAdd_def Let_def)

lemma classListAdd_console: "console (classListAdd e c st) = console st"
  by (simp add: classListAdd_def Let_def)

lemma consoleWarn_elements: "elements (consoleWarn w st) = elements st"
  by (simp add: consoleWarn_def)

lemma consoleWarn_console: "console (consoleWarn w st) = console st @ [w]"
  by (simp add: consoleWarn_def)

text \<open>C6: with exactly one candidate, an occurrence whose \<open>specs\<close> constraint is
  non-empty and lacks the candidate's spec is rejected: \<^verbatim>\<open>disambiguate\<close> returns
  \<^verbatim>\<open>null\<close>, the element gets the class \<^verbatim>\<open>respec-offending-element\<close>, one warning is
  logged, and \<^verbatim>\<open>addDataCiteToTerms\<close>' callback writes no dataset entry. With an empty
  constraint (or one that holds the spec) the candidate is returned and nothing
  is changed by \<^verbatim>\<open>disambiguate\<close>.\<close>

theorem disambiguate_one_candidate:
  "(specs ctx \<noteq> [] \<and> spec c \<notin> set (specs ctx) \<longrightarrow>
      disambiguate (Some [c]) ctx st =
        (None, consoleWarn (NoDataFor (elem ctx))
                 (classListAdd (elem ctx) ''respec-offending-element'' st))
      \<and> ''respec-offending-element''
            \<in> set (classList (elements (snd (disambiguate (Some [c]) ctx st)) (elem ctx)))
      \<and> console (snd (disambiguate (Some [c]) ctx st)) = console st @ [NoDataFor (elem ctx)]
      \<and> citeEntry (Some [c]) ctx st = (None, snd (disambiguate (Some [c]) ctx st))
      \<and> (\<forall>e. dataset (elements (snd (citeEntry (Some [c]) ctx st)) e) = dataset (elements st e)))
   \<and> (specs ctx = [] \<or> spec c \<in> set (specs ctx) \<longrightarrow>
        disambiguate (Some [c]) ctx st = (Some c, st))"
  by (auto simp add: disambiguate_def citeEntry_def consoleWarn_elements classListAdd_dataset
        classListAdd_member consoleWarn_console classListAdd_console)

theorem disambiguate_one_candidate_witness:
  "disambiguate (Some [widgetInDom]) \<lparr>elem = 0, specs = [''html''], types = []\<rparr> emptyXrefState
    = (None, consoleWarn (NoDataFor 0) (classListAdd 0 ''respec-offending-element'' emptyXrefState))
   \<and> disambiguate (Some [widgetInDom]) \<lparr>elem = 0, specs = [], types = []\<rparr> emptyXrefState
    = (Some widgetInDom, emptyXrefState)"
  using disambiguate_one_candidate
          [of "\<lparr>elem = 0, specs = [''html''], types = []\<rparr>" widgetInDom emptyXrefState]
        disambiguate_one_candidate
          [of "\<lparr>elem = 0, specs = [], types = []\<rparr>" widgetInDom emptyXrefState]
  by (simp add: widgetInDom_def)

text \<open>C7: with two or more candidates \<^verbatim>\<open>disambiguate\<close> returns \<^verbatim>\<open>null\<close> whatever the
  \<open>specs\<close> constraint is: it logs one ambiguity warning, gives the element the class
  \<^verbatim>\<open>respec-offending-element\<close>, and the callback of \<^verbatim>\<open>addDataCiteToTerms\<close> then writes no
  dataset entry.\<close>

theorem disambiguate_many_candidates:
  "2 \<le> length cs \<Longrightarrow>
     disambiguate (Some cs) ctx st =
       (None, classListAdd (elem ctx) ''respec-offending-element''
                (consoleWarn (AmbiguityInDataFor (elem ctx)) st))
     \<and> ''respec-offending-element''
           \<in> set (classList (elements (snd (disambiguate (Some cs) ctx st)) (elem ctx)))
     \<and> console (snd (disambiguate (Some cs) ctx st)) = console st @ [AmbiguityInDataFor (elem ctx)]
     \<and> citeEntry (Some cs) ctx st = (None, snd (disambiguate (Some cs) ctx st))
     \<and> (\<forall>e. dataset (elements (snd (citeEntry (Some cs) ctx st)) e) = dataset (elements st e))"
proof -
  assume len: "2 \<le> length cs"
  then have ne: "cs \<noteq> []" and n1: "length cs \<noteq> 1" by auto
  have d: "disambiguate (Some cs) ctx st =
       (None, classListAdd (elem ctx) ''respec-offending-element''
                (consoleWarn (AmbiguityInDataFor (elem ctx)) st))"
    using ne n1 by (simp add: disambiguate_def)
  show ?thesis
    by (simp add: d citeEntry_def classListAdd_member classListAdd_dataset
          classListAdd_console consoleWarn_console consoleWarn_elements)
qed

theorem disambiguate_many_candidates_witness:
  "disambiguate (Some [widgetInDom, widgetInHtml]) \<lparr>elem = 0, specs = [''dom''], types = []\<rparr>
      emptyXrefState
    = (None, classListAdd 0 ''respec-offending-element''
               (consoleWarn (AmbiguityInDataFor 0) emptyXrefState))"
  using disambiguate_many_candidates
          [of "[widgetInDom, widgetInHtml]" "\<lparr>elem = 0, specs = [''dom''], types = []\<rparr>"
              emptyXrefState]
  by simp

section \<open>The definition linker\<close>

lemma toLowerCase_Baz: "toLowerCase ''Baz'' = ''baz''"
  by (simp add: toLowerCase_def lowerChar_eval)

lemma toLowerCase_Latin1:
  "toLowerCase [CHR 0xC9, CHR ''t'', CHR 0xE9] = [CHR 0xE9, CHR ''t'', CHR 0xE9]"
  by (simp add: toLowerCase_def lowerChar_eval)

lemma getNameAndId_interfaceBaz:
  "getNameAndId interfaceBaz [] newIDLNameMap =
     (Inr \<lparr>name = ''Baz'', idlId = ''idl-def-baz''\<rparr>,
      newIDLNameMap\<lparr>entries := [0 \<mapsto> \<lparr>name = ''Baz'', idlId = ''idl-def-baz''\<rparr>]\<rparr>)"
  by (simp add: getNameAndId_def resolveNameAndId_def getDefnName_def getIdlId_def
        isContainerType_def resolvePartial_def interfaceBaz_def newIDLNameMap_def toLowerCase_Baz)

lemma getNameAndId_partialBaz:
  "fst (getNameAndId partialBaz [] newIDLNameMap) =
     Inr \<lparr>name = ''Baz'', idlId = ''idl-def-baz-partial-1''\<rparr>"
  by (simp add: getNameAndId_def resolveNameAndId_def getDefnName_def getIdlId_def
        isContainerType_def resolvePartial_def interfaceBaz_def partialBaz_def newIDLNameMap_def toLowerCase_Baz
        propertyKey_def obj_get_def obj_set_def objectPrototypeKeys_def decimal.simps digitChar_def split: prod.splits)

text \<open>C10: \<^verbatim>\<open>defineIdlName\<close> never calls \<^verbatim>\<open>showInlineWarning\<close>. Whenever it returns a
  node, the effects hold no warning; and the node is the unlinked anchor only when the
  node is partial and the registry has no definition for it, which is the condition
  under which \<^verbatim>\<open>showWarnings\<close> is false. (When \<^verbatim>\<open>getNameAndId\<close> throws, nothing was
  called yet.)\<close>

theorem defineIdlName_never_warns:
  assumes "fst (defineIdlName escaped data parent findDfn m) = Inr (node, effects)"
  shows "warnings effects = []
         \<and> (isUnlinkedAnchor node \<longrightarrow>
              defn_partial data
              \<and> (\<exists>r m'. getNameAndId data (orEmpty (parentNameOf parent)) m = (Inr r, m')
                         \<and> findDfn data (name r) (parentNameOf parent) = None))"
proof (cases "getNameAndId data (orEmpty (parentNameOf parent)) m")
  case (Pair res m')
  show ?thesis
  proof (cases res)
    case (Inl e)
    with Pair assms show ?thesis by (simp add: defineIdlName_def)
  next
    case (Inr r)
    show ?thesis
    proof (cases "findDfn data (name r) (parentNameOf parent)")
      case None
      with Pair Inr assms show ?thesis
        by (auto simp add: defineIdlName_def warnings_def Let_def split: if_splits)
    next
      case (Some el)
      with Pair Inr assms show ?thesis
        by (auto simp add: defineIdlName_def warnings_def Let_def split: if_splits)
    qed
  qed
qed

lemma defineIdlName_partialBaz:
  "fst (defineIdlName ''Baz'' partialBaz None noDefinitions newIDLNameMap) =
      Inr (UnlinkedAnchor (Some ''partial'') ''interface'' (Some ''Baz'') ''Baz'', [])"
proof -
  obtain m' where "getNameAndId partialBaz [] newIDLNameMap = (Inr \<lparr>name = ''Baz'', idlId = ''idl-def-baz-partial-1''\<rparr>, m')"
    using getNameAndId_partialBaz by (cases "getNameAndId partialBaz [] newIDLNameMap") auto
  then show ?thesis
    by (simp add: defineIdlName_def parentNameOf_def orEmpty_def noDefinitions_def isDefaultJSON_def
        getDfnType_def partialBaz_def interfaceBaz_def)
qed

theorem defineIdlName_never_warns_witness:
  "fst (defineIdlName ''Baz'' partialBaz None noDefinitions newIDLNameMap) =
      Inr (UnlinkedAnchor (Some ''partial'') ''interface'' (Some ''Baz'') ''Baz'', [])
   \<and> warnings ([] :: effect list) = [] \<and> defn_partial partialBaz"
  using defineIdlName_never_warns [OF defineIdlName_partialBaz] defineIdlName_partialBaz
  by simp

lemma defineIdlName_no_dfn:
  assumes "getNameAndId data (orEmpty (parentNameOf parent)) m = (Inr r, m')"
    and "findDfn data (name r) (parentNameOf parent) = None"
    and "\<not> isDefaultJSON data"
    and "\<not> defn_partial data"
  shows "defineIdlName escaped data parent findDfn m =
           (Inr (NewDfn (getDfnType (defn_type data)) escaped,
                 [RegisterDefinition [name r],
                  DecorateDfn (parentNameOf parent) (name r),
                  AddAlternativeNamesByType (defn_type data) (parentNameOf parent) (name r)]),
            m')"
  using assms by (simp add: defineIdlName_def Let_def)

lemma interfaceBaz_facts:
  "noDefinitions interfaceBaz nm pn = None" "\<not> isDefaultJSON interfaceBaz"
  "\<not> defn_partial interfaceBaz" "defn_type interfaceBaz = ''interface''"
  by (simp_all add: noDefinitions_def interfaceBaz_def isDefaultJSON_def)

lemma orEmpty_parentNameOf_None: "orEmpty (Some s) = s" "parentNameOf None = Some []"
  by (simp_all add: parentNameOf_def orEmpty_def)

lemma getDfnType_interface: "getDfnType ''interface'' = ''interface''"
  by (simp add: getDfnType_def)

text \<open>C4, as amended: for a node with no definition in the registry that is not the
  default \<^verbatim>\<open>toJSON\<close> operation and not partial, \<^verbatim>\<open>defineIdlName\<close> shows no warning; it
  builds a new \<^verbatim>\<open><dfn>\<close>, registers it once under the resolved name, and returns it.\<close>

theorem defineIdlName_creates_definition:
  assumes "getNameAndId data (orEmpty (parentNameOf parent)) m = (Inr r, m')"
    and "findDfn data (name r) (parentNameOf parent) = None"
    and "\<not> isDefaultJSON data"
    and "\<not> defn_partial data"
  shows "\<exists>effects.
           defineIdlName escaped data parent findDfn m =
             (Inr (NewDfn (getDfnType (defn_type data)) escaped, effects), m')
           \<and> warnings effects = []
           \<and> registrations effects = [[name r]]"
proof -
  have "defineIdlName escaped data parent findDfn m =
           (Inr (NewDfn (getDfnType (defn_type data)) escaped,
                 [RegisterDefinition [name r],
                  DecorateDfn (parentNameOf parent) (name r),
                  AddAlternativeNamesByType (defn_type data) (parentNameOf parent) (name r)]),
            m')"
    using assms by (rule defineIdlName_no_dfn)
  then show ?thesis by (simp add: warnings_def registrations_def)
qed

theorem defineIdlName_creates_definition_witness:
  "\<exists>effects.
     defineIdlName ''Baz'' interfaceBaz None noDefinitions newIDLNameMap =
       (Inr (NewDfn ''interface'' ''Baz'', effects),
        newIDLNameMap\<lparr>entries := [0 \<mapsto> \<lparr>name = ''Baz'', idlId = ''idl-def-baz''\<rparr>]\<rparr>)
     \<and> warnings effects = [] \<and> registrations effects = [[''Baz'']]"
  using defineIdlName_creates_definition
          [of interfaceBaz None newIDLNameMap "\<lparr>name = ''Baz'', idlId = ''idl-def-baz''\<rparr>"
              "newIDLNameMap\<lparr>entries := [0 \<mapsto> \<lparr>name = ''Baz'', idlId = ''idl-def-baz''\<rparr>]\<rparr>"
              noDefinitions "''Baz''"]
        getNameAndId_interfaceBaz
  by (simp add: interfaceBaz_facts orEmpty_parentNameOf_None getDfnType_interface)

text \<open>C4, as stated, fails for a plain \<^verbatim>\<open>interface Baz\<close> without a \<^verbatim>\<open><dfn>\<close>: every
  condition of the claim holds, and the result is a new definition with no warning,
  not an unlinked anchor with one warning.\<close>

theorem missing_definition_warning_counterexample:
  "getNameAndId interfaceBaz (orEmpty (parentNameOf None)) newIDLNameMap =
     (Inr \<lparr>name = ''Baz'', idlId = ''idl-def-baz''\<rparr>,
      newIDLNameMap\<lparr>entries := [0 \<mapsto> \<lparr>name = ''Baz'', idlId = ''idl-def-baz''\<rparr>]\<rparr>)
   \<and> noDefinitions interfaceBaz ''Baz'' (parentNameOf None) = None
   \<and> defn_type interfaceBaz \<noteq> ''typedef''
   \<and> \<not> (defn_partial interfaceBaz \<and> noDefinitions interfaceBaz ''Baz'' (parentNameOf None) = None)
   \<and> \<not> isDefaultJSON interfaceBaz
   \<and> fst (defineIdlName ''Baz'' interfaceBaz None noDefinitions newIDLNameMap) =
        Inr (NewDfn ''interface'' ''Baz'',
             [RegisterDefinition [''Baz''], DecorateDfn (Some []) ''Baz'',
              AddAlternativeNamesByType ''interface'' (Some []) ''Baz''])
   \<and> warnings [RegisterDefinition [''Baz''], DecorateDfn (Some []) ''Baz'',
                 AddAlternativeNamesByType ''interface'' (Some []) ''Baz''] = []
   \<and> \<not> isUnlinkedAnchor (NewDfn ''interface'' ''Baz'')"
proof -
  have pre: "getNameAndId interfaceBaz (orEmpty (parentNameOf None)) newIDLNameMap =
               (Inr \<lparr>name = ''Baz'', idlId = ''idl-def-baz''\<rparr>,
                newIDLNameMap\<lparr>entries := [0 \<mapsto> \<lparr>name = ''Baz'', idlId = ''idl-def-baz''\<rparr>]\<rparr>)"
    using getNameAndId_interfaceBaz by (simp add: orEmpty_parentNameOf_None)
  have "fst (defineIdlName ''Baz'' interfaceBaz None noDefinitions newIDLNameMap) =
     Inr (NewDfn (getDfnType (defn_type interfaceBaz)) ''Baz'',
           [RegisterDefinition [''Baz''], DecorateDfn (parentNameOf None) ''Baz'',
            AddAlternativeNamesByType (defn_type interfaceBaz) (parentNameOf None) ''Baz''])"
    using defineIdlName_no_dfn [OF pre, of noDefinitions "''Baz''"]
    by (simp add: interfaceBaz_facts)
  then show ?thesis
    using pre
    by (simp add: interfaceBaz_facts orEmpty_parentNameOf_None getDfnType_interface warnings_def)
qed

section \<open>Writing the citation onto the occurrence\<close>

lemma splitOn_nonempty: "splitOn sep s \<noteq> []"
  by (induction s) (auto split: list.splits)

lemma at_splitLimit_one: "at (splitLimit sep (Suc 0) s) (Suc 0) = None"
  by (simp add: at_def splitLimit_def)

lemma assignCite_dataset:
  "dataset (elements (assignCite e cite cp cf st) e) =
     (dataset (elements st e))(''cite'' \<mapsto> cite, ''citePath'' \<mapsto> propertyKey cp,
                               ''citeFrag'' \<mapsto> propertyKey cf)"
  by (simp add: assignCite_def Let_def)

lemma citeEntry_separator_throws:
  assumes "disambiguate data entry st = (Some r, st1)" and "CHR ''/'' \<in> set (uri r)"
  shows "fst (citeEntry data entry st) = Some TypeError
         \<and> elements (snd (citeEntry data entry st)) = elements st1"
  using assms by (simp add: citeEntry_def at_splitLimit_one Let_def consoleWarn_elements)

lemma citeEntry_no_separator:
  assumes "disambiguate data entry st = (Some r, st1)" and "CHR ''/'' \<notin> set (uri r)"
  shows "fst (citeEntry data entry st) = None
         \<and> dataset (elements (snd (citeEntry data entry st)) (elem entry)) =
             (dataset (elements st1 (elem entry)))
               (''cite'' \<mapsto> spec r,
                ''citePath'' \<mapsto> hd (splitOn CHR ''#'' (uri r)),
                ''citeFrag'' \<mapsto> propertyKey (at (splitOn CHR ''#'' (uri r)) 1))"
proof -
  have "at (splitOn CHR ''#'' (uri r)) 0 = Some (hd (splitOn CHR ''#'' (uri r)))"
    using splitOn_nonempty [of "CHR ''#''" "uri r"] by (simp add: at_def hd_conv_nth)
  then show ?thesis
    using assms
    by (simp add: citeEntry_def Let_def assignCite_dataset consoleWarn_elements propertyKey_def)
qed

text \<open>C2, at a response whose first candidate has a \<^verbatim>\<open>uri\<close> with a path separator
  (\<^verbatim>\<open>dom/#widget\<close>): the candidate is accepted, its spec is added to the normative
  references, then \<^verbatim>\<open>uri.split("/", 1)[1]\<close> is \<^verbatim>\<open>undefined\<close> and \<^verbatim>\<open>path.split\<close> throws. The
  loop is left: the second term is never looked at and no dataset is written.\<close>

theorem addDataCiteToTerms_throws:
  "addDataCiteToTerms twoTermsResponse twoTermsState =
     (Some TypeError, twoTermsState\<lparr>normativeReferences := {''dom''}\<rparr>)"
  by (simp add: addDataCiteToTerms_def twoTermsResponse_def twoTermsState_def emptyXrefState_def
        citeEntry_def disambiguate_def widgetWithPath_def at_splitLimit_one)

text \<open>C3, at the accepted candidate with \<^verbatim>\<open>uri = "dom/#widget"\<close>: the callback throws
  and the element's dataset stays empty, where the claim has \<^verbatim>\<open>citePath\<close> and
  \<^verbatim>\<open>citeFrag\<close> taken from the part of the uri after the separator.\<close>

theorem citeEntry_writes_nothing_for_path:
  "disambiguate (Some [widgetWithPath]) \<lparr>elem = 0, specs = [], types = []\<rparr> emptyXrefState =
     (Some widgetWithPath, emptyXrefState)
   \<and> citeEntry (Some [widgetWithPath]) \<lparr>elem = 0, specs = [], types = []\<rparr> emptyXrefState =
     (Some TypeError, emptyXrefState\<lparr>normativeReferences := {''dom''}\<rparr>)
   \<and> dataset (elements (emptyXrefState\<lparr>normativeReferences := {''dom''}\<rparr>) 0) = Map.empty"
  by (simp add: emptyXrefState_def plainElement_def
        citeEntry_def disambiguate_def widgetWithPath_def at_splitLimit_one)

section \<open>Memoization in the name map\<close>

lemma resolvePartial_entries: "resolvePartial d m = (x, m') \<Longrightarrow> entries m' = entries m"
  by (auto simp add: resolvePartial_def Let_def split: if_splits)

lemma resolveOverload_entries: "resolveOverload nm p m = (x, m') \<Longrightarrow> entries m' = entries m"
  by (auto simp add: resolveOverload_def Let_def)

lemma resolveNameAndId_entries: "entries (snd (resolveNameAndId d p m)) = entries m"
  by (auto simp add: resolveNameAndId_def Let_def split: option.splits prod.splits
        dest: resolvePartial_entries resolveOverload_entries)

lemma getNameAndId_keeps_entry:
  assumes "entries m i = Some r"
  shows "entries (snd (getNameAndId d p m)) i = Some r"
proof (cases "entries m (defn_ident d)")
  case (Some r')
  with assms show ?thesis by (simp add: getNameAndId_def)
next
  case None
  with assms have ne: "i \<noteq> defn_ident d" by auto
  obtain res m' where res: "resolveNameAndId d p m = (res, m')"
    by (cases "resolveNameAndId d p m")
  with resolveNameAndId_entries [of d p m] have "entries m' = entries m" by simp
  with None assms ne res show ?thesis
    by (cases res) (simp_all add: getNameAndId_def)
qed

lemma getAll_keeps_entry:
  "entries m i = Some r \<Longrightarrow> entries (snd (getAll reqs m)) i = Some r"
proof (induction reqs arbitrary: m)
  case Nil
  then show ?case by simp
next
  case (Cons a reqs)
  obtain d p where a: "a = (d, p)" by (cases a)
  have "entries (snd (getNameAndId d p m)) i = Some r"
    using Cons.prems by (rule getNameAndId_keeps_entry)
  from Cons.IH [OF this] a show ?case
    by (simp add: split_beta Let_def)
qed

lemma getNameAndId_memoizes:
  assumes "getNameAndId d p m = (Inr r, m1)"
  shows "entries m1 (defn_ident d) = Some r"
proof (cases "entries m (defn_ident d)")
  case (Some r')
  with assms show ?thesis by (auto simp add: getNameAndId_def)
next
  case None
  with assms show ?thesis
    by (auto simp add: getNameAndId_def split: prod.splits sum.splits)
qed

text \<open>A call throws only for a node without a name to lower-case, and then the name
  map is as it was before the call.\<close>

lemma getNameAndId_throws:
  assumes "getNameAndId d p m = (Inl e, m')"
  shows "m' = m \<and> getDefnName d = None \<and> entries m (defn_ident d) = None"
  using assms
  by (auto simp add: getNameAndId_def resolveNameAndId_def Let_def split_beta
        split: option.splits sum.splits prod.splits if_splits)

text \<open>C8: once \<^verbatim>\<open>getNameAndId\<close> has returned a result for a node, a later call for that
  node, after any further calls of \<^verbatim>\<open>getNameAndId\<close> (for any nodes and parents, and
  whatever parent the later call passes), returns the same result and leaves the whole
  name map, both counter objects included, as it was.\<close>

theorem getNameAndId_idempotent:
  assumes "getNameAndId d p m = (Inr r, m1)"
  shows "getNameAndId d p' (snd (getAll reqs m1)) = (Inr r, snd (getAll reqs m1))"
proof -
  have "entries m1 (defn_ident d) = Some r"
    using assms by (rule getNameAndId_memoizes)
  then have "entries (snd (getAll reqs m1)) (defn_ident d) = Some r"
    by (rule getAll_keeps_entry)
  then show ?thesis by (simp add: getNameAndId_def)
qed

theorem getNameAndId_idempotent_witness:
  "getNameAndId interfaceBaz ''Other''
       (snd (getAll [(partialDictionary 3 ''Bar'', []), (operationFoo 1, ''Baz''),
                     (operationFoo 2, ''Baz'')]
              (newIDLNameMap\<lparr>entries := [0 \<mapsto> \<lparr>name = ''Baz'', idlId = ''idl-def-baz''\<rparr>]\<rparr>)))
     = (Inr \<lparr>name = ''Baz'', idlId = ''idl-def-baz''\<rparr>,
        snd (getAll [(partialDictionary 3 ''Bar'', []), (operationFoo 1, ''Baz''),
                     (operationFoo 2, ''Baz'')]
              (newIDLNameMap\<lparr>entries := [0 \<mapsto> \<lparr>name = ''Baz'', idlId = ''idl-def-baz''\<rparr>]\<rparr>)))"
  by (rule getNameAndId_idempotent [OF getNameAndId_interfaceBaz])

section \<open>The counters of the name map\<close>








lemma dotted_key:
  assumes "CHR ''.'' \<in> set key"
  shows "key \<noteq> ''__proto__''" and "key \<notin> set objectPrototypeKeys"
  using assms by (auto simp add: objectPrototypeKeys_def)

lemma obj_get_dotted:
  "CHR ''.'' \<in> set key \<Longrightarrow> obj_get obj key = (case obj key of Some v \<Rightarrow> v | None \<Rightarrow> Undefined)"
  using dotted_key [of key] by (simp add: obj_get_def)

lemma obj_set_dotted: "CHR ''.'' \<in> set key \<Longrightarrow> obj_set obj key v = obj(key \<mapsto> v)"
  using dotted_key [of key] by (simp add: obj_set_def)

lemma numericObject_update: "numericObject obj \<Longrightarrow> numericObject (obj(key \<mapsto> Num n))"
  by (simp add: numericObject_def)

lemma counterOf_update: "counterOf (obj(key \<mapsto> Num n)) k = (if k = key then n else counterOf obj k)"
  by (simp add: counterOf_def)

lemma ensure_counter:
  assumes "numericObject obj" and "CHR ''.'' \<in> set key"
  shows "(if \<not> truthy (obj_get obj key) then obj_set obj key (Num 0) else obj)
           = obj(key \<mapsto> Num (counterOf obj key))"
proof (cases "obj key")
  case None
  then show ?thesis
    using assms(2) by (simp add: obj_get_dotted obj_set_dotted counterOf_def)
next
  case (Some v)
  with assms(1) obtain n where v: "v = Num n" by (auto simp add: numericObject_def)
  with Some show ?thesis
    using assms(2) by (simp add: obj_get_dotted obj_set_dotted counterOf_def fun_upd_idem)
qed

lemma read_counter:
  assumes "numericObject obj" and "CHR ''.'' \<in> set key"
  shows "truthy (obj_get obj key) = (counterOf obj key \<noteq> 0)"
    and "counterOf obj key \<noteq> 0 \<Longrightarrow> toJsString (obj_get obj key) = decimal (counterOf obj key)"
  using assms
  by (auto simp add: obj_get_dotted numericObject_def counterOf_def split: option.splits jsval.splits)

lemma increment_counter:
  assumes "CHR ''.'' \<in> set key" and "obj key = Some (Num c)"
  shows "obj_set obj key (plusOne (obj_get obj key)) = obj(key \<mapsto> Num (c + 1))"
  using assms by (simp add: obj_get_dotted obj_set_dotted)

lemma resolveOverload_keys:
  assumes q: "q = p @ ''.'' @ nm" and fq: "fq = q @ ''()''"
  shows "resolveOverload nm p m =
     (let o1 = (if \<not> truthy (obj_get (operationNames m) fq)
                then obj_set (operationNames m) fq (Num 0)
                else operationNames m);
          overload = (if \<not> truthy (obj_get o1 q) then None
                      else Some (''!overload-'' @ toJsString (obj_get o1 q)));
          o2 = (if \<not> truthy (obj_get o1 q)
                then obj_set o1 q (Num 0) else o1);
          o3 = obj_set o2 fq (plusOne (obj_get o2 fq));
          o4 = obj_set o3 q (plusOne (obj_get o3 q))
      in (case overload of None \<Rightarrow> [] | Some s \<Rightarrow> s, m\<lparr>operationNames := o4\<rparr>))"
  unfolding q fq resolveOverload_def Let_def by (rule refl)

lemma overload_step:
  assumes num: "numericObject (operationNames m)"
    and dq: "CHR ''.'' \<in> set q" and dfq: "CHR ''.'' \<in> set fq" and ne: "fq \<noteq> q"
  shows "(let o1 = (if \<not> truthy (obj_get (operationNames m) fq)
                then obj_set (operationNames m) fq (Num 0)
                else operationNames m);
          overload = (if \<not> truthy (obj_get o1 q) then None
                      else Some (''!overload-'' @ toJsString (obj_get o1 q)));
          o2 = (if \<not> truthy (obj_get o1 q)
                then obj_set o1 q (Num 0) else o1);
          o3 = obj_set o2 fq (plusOne (obj_get o2 fq));
          o4 = obj_set o3 q (plusOne (obj_get o3 q))
      in (case overload of None \<Rightarrow> [] | Some s \<Rightarrow> s, m\<lparr>operationNames := o4\<rparr>))
     = (if counterOf (operationNames m) q = 0 then []
        else ''!overload-'' @ decimal (counterOf (operationNames m) q),
        m\<lparr>operationNames := (operationNames m)
             (fq \<mapsto> Num (counterOf (operationNames m) fq + 1),
              q \<mapsto> Num (counterOf (operationNames m) q + 1))\<rparr>)"
proof -
  define ops where "ops = operationNames m"
  define o1 where "o1 = (if \<not> truthy (obj_get ops fq) then obj_set ops fq (Num 0) else ops)"
  have num': "numericObject ops" using num by (simp add: ops_def)
  have o1: "o1 = ops(fq \<mapsto> Num (counterOf ops fq))"
    unfolding o1_def using num' dfq by (rule ensure_counter)
  have num1: "numericObject o1" using num' by (simp add: o1 numericObject_update)
  have c1q: "counterOf o1 q = counterOf ops q"
    using ne by (simp add: o1 counterOf_update)
  define o2 where "o2 = (if \<not> truthy (obj_get o1 q) then obj_set o1 q (Num 0) else o1)"
  have o2: "o2 = o1(q \<mapsto> Num (counterOf ops q))"
    unfolding o2_def using ensure_counter [OF num1 dq] c1q by simp
  have o2fq: "o2 fq = Some (Num (counterOf ops fq))"
    using ne by (simp add: o2 o1)
  define o3 where "o3 = obj_set o2 fq (plusOne (obj_get o2 fq))"
  have o3: "o3 = o2(fq \<mapsto> Num (counterOf ops fq + 1))"
    unfolding o3_def using dfq o2fq by (rule increment_counter)
  have o3q: "o3 q = Some (Num (counterOf ops q))"
    using ne by (simp add: o3 o2)
  define o4 where "o4 = obj_set o3 q (plusOne (obj_get o3 q))"
  have o4: "o4 = o3(q \<mapsto> Num (counterOf ops q + 1))"
    unfolding o4_def using dq o3q by (rule increment_counter)
  have final: "o4 = ops(fq \<mapsto> Num (counterOf ops fq + 1), q \<mapsto> Num (counterOf ops q + 1))"
    using ne by (auto simp add: o4 o3 o2 o1 fun_eq_iff)
  have ov: "(case (if \<not> truthy (obj_get o1 q) then None
             else Some (''!overload-'' @ toJsString (obj_get o1 q))) of None \<Rightarrow> [] | Some s \<Rightarrow> s)
            = (if counterOf ops q = 0 then []
               else ''!overload-'' @ decimal (counterOf ops q))"
    using read_counter [OF num1 dq] c1q by simp
  show ?thesis
    unfolding Let_def ops_def [symmetric] o1_def [symmetric] o2_def [symmetric]
      o3_def [symmetric] o4_def [symmetric]
    using ov final by simp
qed

lemma resolveOverload_numeric:
  assumes num: "numericObject (operationNames m)"
  shows "resolveOverload nm p m =
           (if counterOf (operationNames m) (p @ ''.'' @ nm) = 0 then []
            else ''!overload-'' @ decimal (counterOf (operationNames m) (p @ ''.'' @ nm)),
            m\<lparr>operationNames := (operationNames m)
                 ((p @ ''.'' @ nm) @ ''()'' \<mapsto>
                    Num (counterOf (operationNames m) ((p @ ''.'' @ nm) @ ''()'') + 1),
                  p @ ''.'' @ nm \<mapsto> Num (counterOf (operationNames m) (p @ ''.'' @ nm) + 1))\<rparr>)"
proof -
  have dq: "CHR ''.'' \<in> set (p @ ''.'' @ nm)"
    and dfq: "CHR ''.'' \<in> set ((p @ ''.'' @ nm) @ ''()'')"
    and ne: "(p @ ''.'' @ nm) @ ''()'' \<noteq> p @ ''.'' @ nm"
    by simp_all
  show ?thesis
    unfolding resolveOverload_keys [OF refl refl]
    using num dq dfq ne by (rule overload_step)
qed

lemma call_not_container: "isCallType t \<Longrightarrow> \<not> isContainerType t"
  by (auto simp add: isCallType_def isContainerType_def)

lemma resolvePartial_operationNames:
  "resolvePartial d m = (x, m') \<Longrightarrow> operationNames m' = operationNames m \<and> entries m' = entries m"
  by (auto simp add: resolvePartial_def Let_def split: if_splits)

lemma resolveNameAndId_call:
  assumes "numericObject (operationNames m)" and "isCallType (defn_type d)"
    and "getDefnName d = Some n"
  shows "resolveNameAndId d p m =
           (Inr (callResult d n p (counterOf (operationNames m) (p @ ''.'' @ n))),
            m\<lparr>operationNames := (operationNames m)
                 ((p @ ''.'' @ n) @ ''()'' \<mapsto>
                    Num (counterOf (operationNames m) ((p @ ''.'' @ n) @ ''()'') + 1),
                  p @ ''.'' @ n \<mapsto> Num (counterOf (operationNames m) (p @ ''.'' @ n) + 1))\<rparr>)"
proof -
  have nc: "\<not> isContainerType (defn_type d)"
    using assms(2) by (rule call_not_container)
  show ?thesis
    unfolding resolveNameAndId_def
    by (simp only: assms(3) option.case nc assms(2) if_True if_False Let_def
          resolveOverload_numeric [OF assms(1)] split_conv)
       (simp add: callResult_def argumentSegments_def)
qed

lemma resolveNameAndId_other:
  assumes "\<not> isCallType (defn_type d) \<or> getDefnName d = None"
  shows "operationNames (snd (resolveNameAndId d p m)) = operationNames m"
  using assms
  by (auto simp add: resolveNameAndId_def Let_def split: option.splits prod.splits
        dest: resolvePartial_operationNames)

lemma bumps_other: "\<not> isCallType (defn_type d) \<or> getDefnName d = None \<Longrightarrow> bumps key (d, p) = 0"
  by (auto simp add: bumps_def qualifiedNameOf_def)

lemma bumps_call:
  "isCallType (defn_type d) \<Longrightarrow> getDefnName d = Some n \<Longrightarrow>
     bumps key (d, p) = (if key = p @ ''.'' @ n then 1 else 0)
                        + (if key = (p @ ''.'' @ n) @ ''()'' then 1 else 0)"
  by (auto simp add: bumps_def qualifiedNameOf_def)

lemma getNameAndId_fresh:
  "entries m (defn_ident d) = None \<Longrightarrow>
     getNameAndId d p m =
       (case resolveNameAndId d p m of
          (Inl e, m') \<Rightarrow> (Inl e, m')
        | (Inr r, m') \<Rightarrow> (Inr r, m'\<lparr>entries := (entries m')(defn_ident d \<mapsto> r)\<rparr>))"
  by (simp add: getNameAndId_def)

lemma getNameAndId_step:
  assumes num: "numericObject (operationNames m)" and fresh: "entries m (defn_ident d) = None"
  shows "numericObject (operationNames (snd (getNameAndId d p m)))"
    and "counterOf (operationNames (snd (getNameAndId d p m))) key
           = counterOf (operationNames m) key + bumps key (d, p)"
    and "i \<noteq> defn_ident d \<Longrightarrow> entries (snd (getNameAndId d p m)) i = entries m i"
    and "isCallType (defn_type d) \<Longrightarrow> getDefnName d = Some n \<Longrightarrow>
           fst (getNameAndId d p m)
             = Inr (callResult d n p (counterOf (operationNames m) (p @ ''.'' @ n)))"
proof -
  have ent: "entries (snd (resolveNameAndId d p m)) = entries m"
    by (rule resolveNameAndId_entries)
  obtain res m' where r: "resolveNameAndId d p m = (res, m')"
    by (cases "resolveNameAndId d p m")
  have g: "operationNames (snd (getNameAndId d p m)) = operationNames m'"
    using r by (cases res) (simp_all add: getNameAndId_fresh [OF fresh])
  show "i \<noteq> defn_ident d \<Longrightarrow> entries (snd (getNameAndId d p m)) i = entries m i"
    using r ent by (cases res) (simp_all add: getNameAndId_fresh [OF fresh])
  show "isCallType (defn_type d) \<Longrightarrow> getDefnName d = Some n \<Longrightarrow>
           fst (getNameAndId d p m)
             = Inr (callResult d n p (counterOf (operationNames m) (p @ ''.'' @ n)))"
    using resolveNameAndId_call [OF num, of d n p]
    by (simp add: getNameAndId_fresh [OF fresh])
  show "numericObject (operationNames (snd (getNameAndId d p m)))"
  proof (cases "isCallType (defn_type d) \<and> getDefnName d \<noteq> None")
    case True
    then obtain n where n: "getDefnName d = Some n" and c: "isCallType (defn_type d)" by auto
    show ?thesis
      using resolveNameAndId_call [OF num c n, of p] r num
      by (auto simp add: g numericObject_update)
  next
    case False
    then have "operationNames m' = operationNames m"
      using resolveNameAndId_other [of d p m] r by auto
    then show ?thesis using num by (simp add: g)
  qed
  show "counterOf (operationNames (snd (getNameAndId d p m))) key
           = counterOf (operationNames m) key + bumps key (d, p)"
  proof (cases "isCallType (defn_type d) \<and> getDefnName d \<noteq> None")
    case True
    then obtain n where n: "getDefnName d = Some n" and c: "isCallType (defn_type d)" by auto
    have ne: "(p @ ''.'' @ n) @ ''()'' \<noteq> p @ ''.'' @ n" by simp
    have "operationNames m' = (operationNames m)
                 ((p @ ''.'' @ n) @ ''()'' \<mapsto>
                    Num (counterOf (operationNames m) ((p @ ''.'' @ n) @ ''()'') + 1),
                  p @ ''.'' @ n \<mapsto> Num (counterOf (operationNames m) (p @ ''.'' @ n) + 1))"
      using resolveNameAndId_call [OF num c n, of p] r by auto
    then show ?thesis
      using ne by (auto simp only: g counterOf_update bumps_call [OF c n] split: if_splits)
  next
    case False
    then have "operationNames m' = operationNames m"
      using resolveNameAndId_other [of d p m] r by auto
    moreover have "bumps key (d, p) = 0"
      using False by (intro bumps_other) auto
    ultimately show ?thesis by (simp add: g)
  qed
qed

section \<open>Runs of the name map\<close>

lemma getAll_Cons:
  "getAll ((d, p) # rest) m =
     (fst (getNameAndId d p m) # fst (getAll rest (snd (getNameAndId d p m))),
      snd (getAll rest (snd (getNameAndId d p m))))"
  by (simp add: split_beta Let_def)

declare getAll.simps(2) [simp del]

lemma newIDLNameMap_fresh:
  "numericObject (operationNames newIDLNameMap)" "entries newIDLNameMap i = None"
  "counterOf (operationNames newIDLNameMap) key = 0"
  by (simp_all add: newIDLNameMap_def numericObject_def counterOf_def)

lemma getNameAndId_entries_other:
  assumes "i \<noteq> defn_ident d"
  shows "entries (snd (getNameAndId d p m)) i = entries m i"
proof -
  obtain res m' where r: "resolveNameAndId d p m = (res, m')"
    by (cases "resolveNameAndId d p m")
  with resolveNameAndId_entries [of d p m] have "entries m' = entries m" by simp
  with r assms show ?thesis
    by (cases res) (auto simp add: getNameAndId_def split: option.splits)
qed

lemma getNameAndId_memo:
  "entries m (defn_ident d) = Some r \<Longrightarrow> getNameAndId d p m = (Inr r, m)"
  by (simp add: getNameAndId_def)


lemma getNameAndId_unresolved:
  assumes "\<not> (entries m (defn_ident d) = None \<and> \<not> isl (fst (getNameAndId d p m)))"
  shows "snd (getNameAndId d p m) = m"
proof (cases "entries m (defn_ident d)")
  case (Some r)
  then show ?thesis by (simp add: getNameAndId_memo)
next
  case None
  with assms have "isl (fst (getNameAndId d p m))" by simp
  then obtain e m' where "getNameAndId d p m = (Inl e, m')"
    by (cases "getNameAndId d p m") (auto simp add: isl_def)
  then show ?thesis using getNameAndId_throws by fastforce
qed

lemma getAll_operationNames:
  "numericObject (operationNames m) \<Longrightarrow>
     numericObject (operationNames (snd (getAll reqs m)))
     \<and> counterOf (operationNames (snd (getAll reqs m))) key
         = counterOf (operationNames m) key + sum_list (map (bumps key) (resolved reqs m))"
proof (induction reqs arbitrary: m)
  case Nil
  then show ?case by simp
next
  case (Cons a reqs)
  obtain d p where a: "a = (d, p)" by (cases a)
  let ?m' = "snd (getNameAndId d p m)"
  let ?now = "entries m (defn_ident d) = None \<and> \<not> isl (fst (getNameAndId d p m))"
  have step: "numericObject (operationNames ?m')
      \<and> counterOf (operationNames ?m') key
          = counterOf (operationNames m) key + (if ?now then bumps key (d, p) else 0)"
  proof (cases ?now)
    case True
    then have fresh: "entries m (defn_ident d) = None" by simp
    from True getNameAndId_step(1,2) [OF Cons.prems fresh, of p] show ?thesis by simp
  next
    case False
    then have "?m' = m" by (rule getNameAndId_unresolved)
    with False Cons.prems show ?thesis by auto
  qed
  then have num': "numericObject (operationNames ?m')" by simp
  from Cons.IH [OF num'] step show ?case
    by (auto simp add: a getAll_Cons)
qed

lemma getAll_entries_unresolved:
  "x \<notin> identsOf (resolved reqs m) \<Longrightarrow> entries (snd (getAll reqs m)) x = entries m x"
proof (induction reqs arbitrary: m)
  case Nil
  then show ?case by simp
next
  case (Cons a reqs)
  obtain d p where a: "a = (d, p)" by (cases a)
  let ?m' = "snd (getNameAndId d p m)"
  let ?now = "entries m (defn_ident d) = None \<and> \<not> isl (fst (getNameAndId d p m))"
  have rest: "x \<notin> identsOf (resolved reqs ?m')"
    using Cons.prems by (auto simp add: a identsOf_def)
  have "entries ?m' x = entries m x"
  proof (cases ?now)
    case True
    then have "x \<noteq> defn_ident d"
      using Cons.prems by (auto simp add: a identsOf_def)
    then show ?thesis by (rule getNameAndId_entries_other)
  next
    case False
    then have "?m' = m" by (rule getNameAndId_unresolved)
    then show ?thesis by simp
  qed
  with Cons.IH [OF rest] show ?case
    by (simp add: a getAll_Cons)
qed

lemma getAll_nth:
  "j < length reqs \<Longrightarrow>
     fst (getAll reqs m) ! j
       = fst (getNameAndId (fst (reqs ! j)) (snd (reqs ! j)) (snd (getAll (take j reqs) m)))"
proof (induction reqs arbitrary: m j)
  case Nil
  then show ?case by simp
next
  case (Cons a reqs)
  obtain d p where a: "a = (d, p)" by (cases a)
  show ?case
  proof (cases j)
    case 0
    then show ?thesis by (simp add: a getAll_Cons)
  next
    case (Suc j')
    with Cons.prems have "j' < length reqs" by simp
    from Cons.IH [OF this] Suc show ?thesis
      by (simp add: a getAll_Cons)
  qed
qed




lemma entries_before:
  assumes "x \<notin> identsOf (resolved (take j reqs) newIDLNameMap)"
  shows "entries (snd (getAll (take j reqs) newIDLNameMap)) x = None"
  using getAll_entries_unresolved [OF assms] by (simp add: newIDLNameMap_fresh)


lemma call_result_at:
  assumes "j < length reqs" and "reqs ! j = (d, p)"
    and "isCallType (defn_type d)" and "getDefnName d = Some n"
    and "defn_ident d \<notin> identsOf (resolved (take j reqs) newIDLNameMap)"
  shows "fst (getAll reqs newIDLNameMap) ! j =
           Inr (callResult d n p
                  (sum_list (map (bumps (p @ ''.'' @ n)) (resolved (take j reqs) newIDLNameMap))))"
proof -
  let ?m = "snd (getAll (take j reqs) newIDLNameMap)"
  have st: "numericObject (operationNames ?m)
      \<and> counterOf (operationNames ?m) (p @ ''.'' @ n)
          = counterOf (operationNames newIDLNameMap) (p @ ''.'' @ n)
            + sum_list (map (bumps (p @ ''.'' @ n)) (resolved (take j reqs) newIDLNameMap))"
    using newIDLNameMap_fresh(1) by (rule getAll_operationNames)
  then have num: "numericObject (operationNames ?m)" by simp
  have fresh: "entries ?m (defn_ident d) = None"
    using assms(5) by (rule entries_before)
  have "fst (getNameAndId d p ?m)
          = Inr (callResult d n p (counterOf (operationNames ?m) (p @ ''.'' @ n)))"
    using num fresh assms(3,4) by (rule getNameAndId_step(4))
  moreover have "fst (getAll reqs newIDLNameMap) ! j = fst (getNameAndId d p ?m)"
    using getAll_nth [OF assms(1), of newIDLNameMap] assms(2) by simp
  ultimately show ?thesis
    using st by (simp only: newIDLNameMap_fresh(3) add.left_neutral)
qed

section \<open>Overloads in a run\<close>

lemma suffix_parens_dotted:
  assumes "suffix ''()'' (p @ ''.'' @ n)"
  shows "suffix ''()'' n"
proof -
  from assms have "suffix ''()'' (''.'' @ n) \<or> (\<exists>xs. ''()'' = xs @ (''.'' @ n) \<and> suffix xs p)"
    by (simp only: suffix_append)
  moreover have "\<not> (\<exists>xs. ''()'' = xs @ (''.'' @ n))"
  proof
    assume "\<exists>xs. ''()'' = xs @ (''.'' @ n)"
    then obtain xs where "''()'' = xs @ (''.'' @ n)" ..
    then have "CHR ''.'' \<in> set ''()''" by (metis append_Cons in_set_conv_decomp)
    then show False by simp
  qed
  ultimately have "suffix ''()'' (CHR ''.'' # n)" by auto
  then show ?thesis by (auto simp add: suffix_Cons)
qed

lemma bumps_without_parens:
  assumes "\<not> suffix ''()'' n"
  shows "bumps (p @ ''.'' @ n) r = (if qualifiedNameOf r = Some (p @ ''.'' @ n) then 1 else 0)"
proof -
  have "map_option (\<lambda>q. q @ ''()'') (qualifiedNameOf r) \<noteq> Some (p @ ''.'' @ n)"
  proof
    assume "map_option (\<lambda>q. q @ ''()'') (qualifiedNameOf r) = Some (p @ ''.'' @ n)"
    then obtain q where "q @ ''()'' = p @ ''.'' @ n" by auto
    then have "suffix ''()'' (p @ ''.'' @ n)" by (metis suffixI)
    then have "suffix ''()'' n" by (rule suffix_parens_dotted)
    with assms show False by simp
  qed
  then show ?thesis by (simp add: bumps_def)
qed

lemma sum_list_indicator:
  "sum_list (map (\<lambda>r. if P r then (1::nat) else 0) xs) = length (filter P xs)"
  by (induction xs) simp_all

lemmas run_eval =
  getAll_Cons getNameAndId_def resolveNameAndId_def getDefnName_def isContainerType_def
  isCallType_def resolvePartial_def resolveOverload_def propertyKey_def obj_get_def obj_set_def
  objectPrototypeKeys_def getIdlId_def toLowerCase_def lowerChar_eval argumentSegments_def
  decimal.simps digitChar_def newIDLNameMap_def Let_def

lemma three_foo_facts:
  "defn_ident (operationFoo i) = i"
  "isCallType (defn_type (operationFoo i))"
  "getDefnName (operationFoo i) = Some ''foo''"
  "\<not> suffix ''()'' ''foo''"
  "defn_arguments (operationFoo i) = []"
  "getIdlId ''foo'' ''A'' = ''idl-def-a-foo''"
  "qualifiedNameOf (operationFoo i, ''A'') = Some ''A.foo''"
  "decimal (Suc 0) = ''1''" "decimal (Suc (Suc 0)) = ''2''"
  by (simp_all add: operationFoo_def isCallType_def getDefnName_def suffix_def getIdlId_def
        toLowerCase_def lowerChar_eval qualifiedNameOf_def decimal.simps digitChar_def
        append_eq_Cons_conv)

lemma fooRun_facts:
  "length fooRun = 6"
  "fooRun ! 0 = (operationFoo 1, ''A'')"
  "fooRun ! 2 = (operationFoo 2, ''A'')"
  "fooRun ! 4 = (operationFoo 3, ''A'')"
  "resolved (take 0 fooRun) newIDLNameMap = []"
  "resolved (take 2 fooRun) newIDLNameMap = [(operationFoo 1, ''A'')]"
  "resolved (take 4 fooRun) newIDLNameMap = [(operationFoo 1, ''A''), (operationFoo 2, ''A'')]"
  by (simp_all add: fooRun_def run_eval operationFoo_def)

text \<open>C5: take any run on a fresh name map and a request in it at which an operation or
  constructor is resolved (its node was not resolved before; requests answered from
  the \<^verbatim>\<open>WeakMap\<close> repeat the first answer and count nothing). Let \<open>k\<close> be the number of
  earlier resolutions with the same fully-qualified name \<^verbatim>\<open>parent.name\<close>, the name being
  one that does not end in \<^verbatim>\<open>()\<close>, as every WebIDL identifier is. At the first
  resolution (\<open>k = 0\<close>) no overload suffix is added: the name is the base name, and the
  anchor id is the base id with the argument segments that the rule for arguments
  prescribes (none for an operation without arguments). At every later one the
  suffix \<^verbatim>\<open>!overload-<k>\<close> is appended to both the name and the base id.\<close>

theorem overload_numbering:
  assumes "j < length reqs" and "reqs ! j = (d, p)"
    and "isCallType (defn_type d)" and "getDefnName d = Some n"
    and "\<not> suffix ''()'' n"
    and "defn_ident d \<notin> identsOf (resolved (take j reqs) newIDLNameMap)"
  shows "fst (getAll reqs newIDLNameMap) ! j =
           Inr (let k = length (filter (\<lambda>r. qualifiedNameOf r = Some (p @ ''.'' @ n))
                                  (resolved (take j reqs) newIDLNameMap))
                in if k = 0
                   then \<lparr>name = n, idlId = getIdlId n p @ argumentSegments (defn_arguments d)\<rparr>
                   else \<lparr>name = n @ ''!overload-'' @ decimal k,
                          idlId = getIdlId n p @ ''!overload-'' @ decimal k\<rparr>)"
proof -
  let ?q = "p @ ''.'' @ n"
  let ?rs = "resolved (take j reqs) newIDLNameMap"
  have main: "fst (getAll reqs newIDLNameMap) ! j =
           Inr (callResult d n p (sum_list (map (bumps ?q) ?rs)))"
    using assms(1-4,6) by (rule call_result_at)
  have "bumps ?q = (\<lambda>r. if qualifiedNameOf r = Some ?q then 1 else 0)"
    by (rule ext) (rule bumps_without_parens [OF assms(5)])
  then have sumeq: "sum_list (map (bumps ?q) ?rs)
      = length (filter (\<lambda>r. qualifiedNameOf r = Some ?q) ?rs)"
    by (simp only: sum_list_indicator)
  have "fst (getAll reqs newIDLNameMap) ! j =
           Inr (callResult d n p (length (filter (\<lambda>r. qualifiedNameOf r = Some ?q) ?rs)))"
    by (simp only: main sumeq)
  then show ?thesis by (simp only: callResult_def Let_def)
qed

theorem overload_numbering_witness:
  "fst (getAll fooRun newIDLNameMap) ! 0 = Inr \<lparr>name = ''foo'', idlId = ''idl-def-a-foo''\<rparr>
   \<and> fst (getAll fooRun newIDLNameMap) ! 2
       = Inr \<lparr>name = ''foo!overload-1'', idlId = ''idl-def-a-foo!overload-1''\<rparr>
   \<and> fst (getAll fooRun newIDLNameMap) ! 4
       = Inr \<lparr>name = ''foo!overload-2'', idlId = ''idl-def-a-foo!overload-2''\<rparr>"
  using overload_numbering [of 0 fooRun "operationFoo 1" "''A''" "''foo''"]
        overload_numbering [of 2 fooRun "operationFoo 2" "''A''" "''foo''"]
        overload_numbering [of 4 fooRun "operationFoo 3" "''A''" "''foo''"]
  by (simp add: fooRun_facts three_foo_facts argumentSegments_def identsOf_def)

text \<open>The block \<^verbatim>\<open>interface Foo { void bar(); void bar(long x); };\<close> of the
  specification, and an operation with an argument that is resolved first.\<close>

lemma overload_Foo_bar:
  "fst (getAll [(operationBar 1, ''Foo''), (operationBarX, ''Foo'')] newIDLNameMap)
     = [Inr \<lparr>name = ''bar'', idlId = ''idl-def-foo-bar''\<rparr>,
        Inr \<lparr>name = ''bar!overload-1'', idlId = ''idl-def-foo-bar!overload-1''\<rparr>]"
  by (simp add: run_eval operationBarX_def operationBar_def)

lemma first_resolution_with_argument:
  "fst (getAll [(operationBarX, ''Foo'')] newIDLNameMap)
     = [Inr \<lparr>name = ''bar'', idlId = ''idl-def-foo-bar-x''\<rparr>]"
  by (simp add: run_eval operationBarX_def)

section \<open>Partial definitions in a run\<close>












text \<open>The two partial dictionaries named \<^verbatim>\<open>Bar\<close> of the specification.\<close>

lemma partial_Bar_suffix:
  "fst (getAll [(partialDictionary 1 ''Bar'', []), (partialDictionary 2 ''Bar'', [])]
          newIDLNameMap)
     = [Inr \<lparr>name = ''Bar'', idlId = ''idl-def-bar-partial-1''\<rparr>,
        Inr \<lparr>name = ''Bar'', idlId = ''idl-def-bar-partial-2''\<rparr>]"
  by (simp add: run_eval partialDictionary_def)

text \<open>C9, at two partial interfaces named \<^verbatim>\<open>toString\<close>: \<^verbatim>\<open>this.idlPartials["toString"]\<close>
  reads the method inherited from \<^verbatim>\<open>Object.prototype\<close>, which is truthy, so the counter
  is not set to 0 and \<^verbatim>\<open>+= 1\<close> appends the character 1 to the text of the function. The
  anchor ids do not end in \<^verbatim>\<open>-partial-1\<close> and \<^verbatim>\<open>-partial-2\<close>.\<close>

theorem partial_toString_suffix:
  "fst (getAll [(partialInterface 1 ''toString'', []), (partialInterface 2 ''toString'', [])]
          newIDLNameMap)
     = [Inr \<lparr>name = ''toString'',
              idlId = ''idl-def-tostring-partial-function toString() { [native code] }1''\<rparr>,
        Inr \<lparr>name = ''toString'',
              idlId = ''idl-def-tostring-partial-function toString() { [native code] }11''\<rparr>]"
  by (simp add: run_eval interfaceNamed_def partialInterface_def)

section \<open>Anchor ids of different nodes\<close>







end
